theory Spec2Isabelle
  imports Complex_Main "HOL-Library.AList"
begin

section \<open>MovieMeet relay server: data model\<close>

text \<open>
  The relay (the Express + Socket.IO server) keeps one in-memory registry,
  \<^verbatim>\<open>const rooms = new Map()\<close>, that both transports mutate: the Socket.IO event
  handlers (push path) and the \<^verbatim>\<open>/api/room/*\<close> REST handlers (fallback path).

  A JavaScript \<^verbatim>\<open>Map\<close> iterates in insertion order, \<^verbatim>\<open>set\<close> on a present key
  keeps the key's position and \<^verbatim>\<open>delete\<close> removes the key; this is an association
  list with \<open>AList.update\<close> and \<open>AList.delete\<close>, looked up with \<open>map_of\<close>.
\<close>

text \<open>
  A string-valued field of a request body or event payload. The handlers destructure
  the payload, so a field that was not sent is \<^verbatim>\<open>undefined\<close>.
\<close>

datatype field = Undefined | Str string

text \<open>JavaScript truthiness, as tested by \<^verbatim>\<open>!roomId\<close>, \<^verbatim>\<open>!username\<close>, ...\<close>

fun truthy :: "field \<Rightarrow> bool" where
  "truthy Undefined = False"
| "truthy (Str s) = (s \<noteq> [])"

text \<open>Interpolation into a template literal: \<^verbatim>\<open>`${username} joined the room`\<close>.\<close>

fun to_string :: "field \<Rightarrow> string" where
  "to_string Undefined = ''undefined''"
| "to_string (Str s) = s"

text \<open>\<^verbatim>\<open>Date.now().toString()\<close>: the decimal digits of a millisecond count.\<close>

definition digit :: "nat \<Rightarrow> char" where
  "digit d = ''0123456789'' ! d"

fun digits :: "nat \<Rightarrow> string" where
  "digits n = (if n < 10 then [digit n] else digits (n div 10) @ [digit (n mod 10)])"

declare digits.simps [simp del]

definition toString :: "int \<Rightarrow> string" where
  "toString i = (if i < 0 then CHR ''-'' # digits (nat (- i)) else digits (nat i))"

text \<open>
  The value stored for a participant: \<^verbatim>\<open>{ username, userId }\<close> on the fallback path,
  \<^verbatim>\<open>{ username, socketId: socket.id }\<close> on the push path.
\<close>

datatype ident = UserId string | SocketId string

record participant =
  username :: field
  ident :: ident

record videoState =
  currentTime :: real
  isPlaying :: bool

text \<open>A chat entry \<^verbatim>\<open>{ id, user, text, timestamp }\<close>; the timestamp in milliseconds.\<close>

record message =
  msg_id :: string
  user :: field
  msg_text :: field
  timestamp :: int

record room =
  users :: "(string \<times> participant) list"
  videoState :: videoState
  messages :: "message list"

text \<open>
  The server: the registry, Socket.IO's room subscriptions (\<^verbatim>\<open>socket.join\<close>,
  \<^verbatim>\<open>socket.leave\<close>) and, per connection, the closure variable \<^verbatim>\<open>userRooms\<close>.
  A connection is named by its \<^verbatim>\<open>socket.id\<close>.
\<close>

record server =
  rooms :: "(field \<times> room) list"
  subscribers :: "field \<Rightarrow> string set"
  userRooms :: "string \<Rightarrow> field set"

definition initial :: server where
  "initial = \<lparr>rooms = [], subscribers = (\<lambda>_. {}), userRooms = (\<lambda>_. {})\<rparr>"

subsection \<open>What a handler sends\<close>

text \<open>
  \<^verbatim>\<open>io.to(roomId).emit\<close> addresses every socket subscribed to the room,
  \<^verbatim>\<open>socket.to(roomId).emit\<close> every one but the sending socket, \<^verbatim>\<open>socket.emit\<close>
  the sending socket alone.
\<close>

datatype target = ToRoom field | ToRoomExcept field string | ToSocket string

datatype event =
    UserJoined message
  | UserLeft message
  | VideoStateUpdate real bool "(string \<times> field) option"
  | ChatMessage message
  | RoomUsers "participant list" videoState "message list"

type_synonym emit = "target \<times> event"

fun recipients :: "server \<Rightarrow> target \<Rightarrow> string set" where
  "recipients st (ToRoom r) = subscribers st r"
| "recipients st (ToRoomExcept r s) = subscribers st r - {s}"
| "recipients st (ToSocket s) = {s}"

text \<open>The HTTP reply: status code and JSON body.\<close>

datatype body =
    Error string
  | JoinOk string "participant list" videoState "message list"
  | LeaveOk bool
  | Success
  | ChatOk string

type_synonym response = "nat \<times> body"

subsection \<open>Shared pieces of the handlers\<close>

text \<open>The object literal both join handlers store for a room that does not exist yet.\<close>

definition emptyRoom :: room where
  "emptyRoom = \<lparr>users = [], videoState = \<lparr>currentTime = 0, isPlaying = False\<rparr>, messages = []\<rparr>"

text \<open>
  The loop of \<^verbatim>\<open>/api/room/join\<close>: every entry whose username equals the joining one is
  deleted (deleting the current entry of a \<^verbatim>\<open>Map\<close> during iteration is safe).
\<close>

fun evictUsername :: "field \<Rightarrow> (string \<times> participant) list \<Rightarrow> (string \<times> participant) list" where
  "evictUsername name [] = []"
| "evictUsername name ((k, u) # us) =
     (if username u = name then evictUsername name us else (k, u) # evictUsername name us)"

text \<open>
  The loop of both leave handlers: the first entry with the given username, after
  which the loop breaks.
\<close>

fun findByUsername :: "field \<Rightarrow> (string \<times> participant) list \<Rightarrow> (string \<times> participant) option" where
  "findByUsername name [] = None"
| "findByUsername name ((k, u) # us) =
     (if username u = name then Some (k, u) else findByUsername name us)"

definition joinedText :: "field \<Rightarrow> field" where
  "joinedText name = Str (to_string name @ '' joined the room'')"

definition leftText :: "field \<Rightarrow> field" where
  "leftText name = Str (to_string name @ '' left the room'')"

section \<open>Fallback path: the REST handlers\<close>

text \<open>
  Each handler takes the server, the fields of \<^verbatim>\<open>req.body\<close>, the clock reading
  \<open>now\<close> (\<^verbatim>\<open>Date.now()\<close> and \<^verbatim>\<open>new Date()\<close>, read as one instant per request)
  and, where the code calls \<^verbatim>\<open>Math.random\<close>, the nine base-36 characters \<open>rnd\<close> it
  yields. The result is the reply, the events emitted and the server afterwards.
  A \<^verbatim>\<open>TypeError\<close> inside \<^verbatim>\<open>try\<close> is the \<open>500\<close> of the \<^verbatim>\<open>catch\<close> block.
\<close>

definition http_join ::
  "server \<Rightarrow> field \<Rightarrow> field \<Rightarrow> int \<Rightarrow> string \<Rightarrow> response \<times> emit list \<times> server" where
  "http_join st roomId uname now rnd =
    (if \<not> truthy roomId \<or> \<not> truthy uname
     then ((400, Error ''roomId and username are required''), [], st)
     else
       let rs = (if map_of (rooms st) roomId = None
                 then AList.update roomId emptyRoom (rooms st) else rooms st);
           userId = ''user-'' @ toString now @ ''-'' @ rnd
       in case map_of rs roomId of
            None \<Rightarrow> ((500, Error ''Failed to join room''), [], st\<lparr>rooms := rs\<rparr>)
          | Some room \<Rightarrow>
              let users1 = evictUsername uname (users room);
                  users2 = AList.update userId \<lparr>username = uname, ident = UserId userId\<rparr> users1;
                  newMessage = \<lparr>msg_id = toString now, user = Str ''System'',
                                msg_text = joinedText uname, timestamp = now\<rparr>;
                  room' = room\<lparr>users := users2, messages := messages room @ [newMessage]\<rparr>
              in ((200, JoinOk userId (map snd (users room')) (videoState room') (messages room')),
                  [(ToRoom roomId, UserJoined newMessage)],
                  st\<lparr>rooms := AList.update roomId room' rs\<rparr>))"

definition http_leave ::
  "server \<Rightarrow> field \<Rightarrow> field \<Rightarrow> field \<Rightarrow> int \<Rightarrow> response \<times> emit list \<times> server" where
  "http_leave st roomId userId uname now =
    (if \<not> truthy roomId then ((400, Error ''roomId is required''), [], st)
     else case map_of (rooms st) roomId of
       None \<Rightarrow> ((404, Error ''Room not found''), [], st)
     | Some room \<Rightarrow>
         let found =
               (if truthy userId \<and> map_of (users room) (to_string userId) \<noteq> None
                then map_option (\<lambda>u. (u, AList.delete (to_string userId) (users room)))
                       (map_of (users room) (to_string userId))
                else if truthy uname
                then map_option (\<lambda>(k, u). (u, AList.delete k (users room)))
                       (findByUsername uname (users room))
                else None)
         in (case found of
              None \<Rightarrow> ((404, Error ''User not found in room''), [], st)
            | Some (u, users1) \<Rightarrow>
                let newMessage = \<lparr>msg_id = toString now, user = Str ''System'',
                                  msg_text = leftText (username u), timestamp = now\<rparr>;
                    room' = room\<lparr>users := users1, messages := messages room @ [newMessage]\<rparr>;
                    out = [(ToRoom roomId, UserLeft newMessage)]
                in if users1 = []
                   then ((200, LeaveOk True), out, st\<lparr>rooms := AList.delete roomId (rooms st)\<rparr>)
                   else ((200, LeaveOk False), out,
                         st\<lparr>rooms := AList.update roomId room' (rooms st)\<rparr>)))"

text \<open>
  \<^verbatim>\<open>currentTime === undefined\<close> and \<^verbatim>\<open>isPlaying === undefined\<close>: the two fields are
  optional in the body, \<open>None\<close> when missing. The three tests of the source's one
  condition all lead to the same 400 reply, so their order does not show.
\<close>

definition http_video_state ::
  "server \<Rightarrow> field \<Rightarrow> real option \<Rightarrow> bool option \<Rightarrow> response \<times> emit list \<times> server" where
  "http_video_state st roomId ct playing =
    (case (ct, playing) of
       (Some t, Some p) \<Rightarrow>
         if \<not> truthy roomId
         then ((400, Error ''roomId, currentTime, and isPlaying are required''), [], st)
         else (case map_of (rooms st) roomId of
                 None \<Rightarrow> ((404, Error ''Room not found''), [], st)
               | Some room \<Rightarrow>
                   ((200, Success),
                    [(ToRoom roomId, VideoStateUpdate t p None)],
                    st\<lparr>rooms := AList.update roomId
                         (room\<lparr>videoState := \<lparr>currentTime = t, isPlaying = p\<rparr>\<rparr>) (rooms st)\<rparr>))
     | _ \<Rightarrow> ((400, Error ''roomId, currentTime, and isPlaying are required''), [], st))"

definition http_chat ::
  "server \<Rightarrow> field \<Rightarrow> field \<Rightarrow> field \<Rightarrow> int \<Rightarrow> response \<times> emit list \<times> server" where
  "http_chat st roomId txt usr now =
    (if \<not> truthy roomId \<or> \<not> truthy txt \<or> \<not> truthy usr
     then ((400, Error ''roomId, text, and user are required''), [], st)
     else case map_of (rooms st) roomId of
       None \<Rightarrow> ((404, Error ''Room not found''), [], st)
     | Some room \<Rightarrow>
         let messageId = toString now;
             newMessage = \<lparr>msg_id = messageId, user = usr, msg_text = txt, timestamp = now\<rparr>
         in ((200, ChatOk messageId),
             [(ToRoom roomId, ChatMessage newMessage)],
             st\<lparr>rooms := AList.update roomId
                  (room\<lparr>messages := messages room @ [newMessage]\<rparr>) (rooms st)\<rparr>))"

section \<open>Push path: the Socket.IO handlers\<close>

text \<open>
  A handler takes the server, the \<^verbatim>\<open>socket.id\<close> of the connection the event arrived
  on, and the payload; it returns the events emitted and the server afterwards. There
  is no reply.
\<close>

definition socket_leave :: "server \<Rightarrow> string \<Rightarrow> field \<Rightarrow> server" where
  "socket_leave st sid roomId =
     st\<lparr>subscribers := (subscribers st)(roomId := subscribers st roomId - {sid}),
        userRooms := (userRooms st)(sid := userRooms st sid - {roomId})\<rparr>"

definition socket_join :: "server \<Rightarrow> string \<Rightarrow> field \<Rightarrow> server" where
  "socket_join st sid roomId =
     st\<lparr>subscribers := (subscribers st)(roomId := insert sid (subscribers st roomId)),
        userRooms := (userRooms st)(sid := insert roomId (userRooms st sid))\<rparr>"

definition leaveRoomCleanup ::
  "server \<Rightarrow> string \<Rightarrow> field \<Rightarrow> field \<Rightarrow> int \<Rightarrow> emit list \<times> server" where
  "leaveRoomCleanup st sid roomId uname now =
    (case map_of (rooms st) roomId of
       None \<Rightarrow> ([], st)
     | Some room \<Rightarrow>
         let found =
               (case map_of (users room) sid of
                  Some u \<Rightarrow> Some (u, users room)
                | None \<Rightarrow>
                    if truthy uname
                    then map_option (\<lambda>(k, u). (u, AList.delete k (users room)))
                           (findByUsername uname (users room))
                    else None)
         in (case found of
              None \<Rightarrow> ([], socket_leave st sid roomId)
            | Some (u, users1) \<Rightarrow>
                let users2 = (if map_of users1 sid \<noteq> None then AList.delete sid users1 else users1);
                    out = [(ToRoom roomId,
                            UserLeft \<lparr>msg_id = toString now, user = username u,
                                      msg_text = leftText (username u), timestamp = now\<rparr>)];
                    rs = (if users2 = [] then AList.delete roomId (rooms st)
                          else AList.update roomId (room\<lparr>users := users2\<rparr>) (rooms st))
                in (out, socket_leave (st\<lparr>rooms := rs\<rparr>) sid roomId)))"

definition join_room ::
  "server \<Rightarrow> string \<Rightarrow> field \<Rightarrow> field \<Rightarrow> int \<Rightarrow> emit list \<times> server" where
  "join_room st sid roomId uname now =
    (let (out0, st0) = (if roomId \<in> userRooms st sid
                        then leaveRoomCleanup st sid roomId uname now else ([], st));
         st1 = socket_join st0 sid roomId;
         rs = (if map_of (rooms st1) roomId = None
               then AList.update roomId emptyRoom (rooms st1) else rooms st1)
     in case map_of rs roomId of
          None \<Rightarrow> (out0, st1\<lparr>rooms := rs\<rparr>)
        | Some room \<Rightarrow>
            let room' = room\<lparr>users :=
                  AList.update sid \<lparr>username = uname, ident = SocketId sid\<rparr> (users room)\<rparr>
            in (out0 @
                [(ToRoom roomId,
                  UserJoined \<lparr>msg_id = toString now, user = uname,
                              msg_text = joinedText uname, timestamp = now\<rparr>),
                 (ToSocket sid,
                  RoomUsers (map snd (users room')) (videoState room') (messages room'))],
                st1\<lparr>rooms := AList.update roomId room' rs\<rparr>))"

definition leave_room ::
  "server \<Rightarrow> string \<Rightarrow> field \<Rightarrow> field \<Rightarrow> int \<Rightarrow> emit list \<times> server" where
  "leave_room st sid roomId uname now = leaveRoomCleanup st sid roomId uname now"

definition video_state_update ::
  "server \<Rightarrow> string \<Rightarrow> field \<Rightarrow> real \<Rightarrow> bool \<Rightarrow> emit list \<times> server" where
  "video_state_update st sid roomId ct playing =
    (case map_of (rooms st) roomId of
       None \<Rightarrow> ([], st)
     | Some room \<Rightarrow>
         (case map_of (users room) sid of
            None \<Rightarrow> ([], st)
          | Some u \<Rightarrow>
              ([(ToRoomExcept roomId sid, VideoStateUpdate ct playing (Some (sid, username u)))],
               st\<lparr>rooms := AList.update roomId
                    (room\<lparr>videoState := \<lparr>currentTime = ct, isPlaying = playing\<rparr>\<rparr>) (rooms st)\<rparr>)))"

text \<open>
  The payload's \<^verbatim>\<open>timestamp\<close> is optional; a client sends \<^verbatim>\<open>new Date()\<close>, which
  arrives as a date string, and \<open>Some t\<close> is the instant it denotes in milliseconds.
  \<^verbatim>\<open>now.getTime() - new Date(msg.timestamp).getTime()\<close> is then \<open>now - timestamp msg\<close>.
\<close>

definition chat_message ::
  "server \<Rightarrow> field \<Rightarrow> field \<Rightarrow> field \<Rightarrow> int option \<Rightarrow> int \<Rightarrow> string \<Rightarrow> emit list \<times> server" where
  "chat_message st roomId txt usr ts now rnd =
    (case map_of (rooms st) roomId of
       None \<Rightarrow> ([], st)
     | Some room \<Rightarrow>
         let recentDuplicates =
               filter (\<lambda>msg. user msg = usr \<and> msg_text msg = txt \<and> now - timestamp msg < 2000)
                 (messages room)
         in if length recentDuplicates > 0 then ([], st)
            else
              let newMessage = \<lparr>msg_id = toString now @ ''-'' @ rnd, user = usr, msg_text = txt,
                                timestamp = (case ts of None \<Rightarrow> now | Some t \<Rightarrow> t)\<rparr>
              in ([(ToRoom roomId, ChatMessage newMessage)],
                  st\<lparr>rooms := AList.update roomId
                       (room\<lparr>messages := messages room @ [newMessage]\<rparr>) (rooms st)\<rparr>))"

section \<open>Client: the playback handler of VideoPlayer.tsx\<close>

text \<open>
  The component holds a reference to the video element (\<open>None\<close> while nothing is
  mounted) and two pieces of React state. \<open>autoplay\<close> says whether the browser lets
  \<^verbatim>\<open>play()\<close> start playback; a rejected promise is only logged.
\<close>

subsection \<open>Double-precision subtraction\<close>

text \<open>
  JavaScript numbers are IEEE 754 binary64 values, and \<^verbatim>\<open>a - b\<close> is the exact difference
  rounded to the nearest such value, ties to the even significand. A finite double is
  a real number; the difference of two of them is rounded here as the standard says:
  the magnitude is brought to a multiple of the unit in the last place of its binade
  (53 significant bits, the exponent not below that of the subnormal numbers), the
  sign is kept. A magnitude beyond the largest double stays a large finite number
  where the machine gives \<^verbatim>\<open>Infinity\<close>; both compare alike with 1, the only use made
  of the difference. \<^verbatim>\<open>NaN\<close> does not arise: the element's \<^verbatim>\<open>currentTime\<close> is a finite
  number and so is a number that arrives in JSON.
\<close>

definition roundHalfEven :: "real \<Rightarrow> int" where
  "roundHalfEven y =
     (let f = \<lfloor>y\<rfloor>; d = y - of_int f
      in if d < 1 / 2 then f else if 1 / 2 < d then f + 1 else if even f then f else f + 1)"

definition ulp_exponent :: "real \<Rightarrow> int" where
  "ulp_exponent a = max \<lfloor>log 2 a\<rfloor> (- 1022) - 52"

definition round_double :: "real \<Rightarrow> real" where
  "round_double x =
     (if x = 0 then 0
      else sgn x * (2 powi ulp_exponent \<bar>x\<bar>
                    * of_int (roundHalfEven (\<bar>x\<bar> / 2 powi ulp_exponent \<bar>x\<bar>))))"

subsection \<open>The handler\<close>

record video_element =
  position :: real
  paused :: bool

record player =
  videoRef :: "video_element option"
  playing :: bool
  isExternalUpdate :: bool

definition handleVideoStateUpdate :: "player \<Rightarrow> real \<Rightarrow> bool \<Rightarrow> bool \<Rightarrow> player" where
  "handleVideoStateUpdate p ct play autoplay =
    (case videoRef p of
       None \<Rightarrow> p
     | Some v \<Rightarrow>
         let timeDiff = \<bar>round_double (position v - ct)\<bar>;
             v1 = (if timeDiff > 1 then v\<lparr>position := ct\<rparr> else v);
             v2 = (if play \<and> paused v1 then v1\<lparr>paused := \<not> autoplay\<rparr>
                   else if \<not> play \<and> \<not> paused v1 then v1\<lparr>paused := True\<rparr>
                   else v1)
         in p\<lparr>videoRef := Some v2, playing := play, isExternalUpdate := True\<rparr>)"

section \<open>Observations on the registry\<close>

text \<open>\<^verbatim>\<open>rooms.has(roomId)\<close>.\<close>

definition room_exists :: "server \<Rightarrow> field \<Rightarrow> bool" where
  "room_exists st roomId = (map_of (rooms st) roomId \<noteq> None)"

text \<open>\<^verbatim>\<open>rooms.get(roomId).users.get(id)\<close>, \<open>None\<close> when the room or the entry is missing.\<close>

definition participant_of :: "server \<Rightarrow> field \<Rightarrow> string \<Rightarrow> participant option" where
  "participant_of st roomId key =
     (case map_of (rooms st) roomId of None \<Rightarrow> None | Some r \<Rightarrow> map_of (users r) key)"

text \<open>The usernames of a room's participant entries, in the order of the map.\<close>

definition usernames :: "server \<Rightarrow> field \<Rightarrow> field list" where
  "usernames st roomId =
     (case map_of (rooms st) roomId of
        None \<Rightarrow> []
      | Some r \<Rightarrow> map (\<lambda>(k, u). username u) (users r))"

text \<open>The stored message history of a room.\<close>

definition history :: "server \<Rightarrow> field \<Rightarrow> message list" where
  "history st roomId = (case map_of (rooms st) roomId of None \<Rightarrow> [] | Some r \<Rightarrow> messages r)"

text \<open>The playback snapshot of a room.\<close>

definition playback :: "server \<Rightarrow> field \<Rightarrow> videoState option" where
  "playback st roomId = map_option videoState (map_of (rooms st) roomId)"

text \<open>No room of the registry has an empty participant map.\<close>

definition no_empty_rooms :: "server \<Rightarrow> bool" where
  "no_empty_rooms st = list_all (\<lambda>(k, r). users r \<noteq> []) (rooms st)"

text \<open>
  Every participant stored by the push path, that is under its \<^verbatim>\<open>socket.id\<close> with that
  id as \<^verbatim>\<open>socketId\<close>, is a connection subscribed to the room.
\<close>

definition push_participants_subscribed :: "server \<Rightarrow> bool" where
  "push_participants_subscribed st =
     (\<forall>r room k u. map_of (rooms st) r = Some room \<longrightarrow> (k, u) \<in> set (users room) \<longrightarrow>
        ident u = SocketId k \<longrightarrow> k \<in> subscribers st r)"

text \<open>
  The states the server can be in: it starts with an empty registry, and every request
  or event runs one handler to completion. The \<^verbatim>\<open>disconnect\<close> handler changes the
  registry only through calls of \<^verbatim>\<open>leaveRoomCleanup\<close>, which \<open>on_cleanup\<close> covers
  (as does \<^verbatim>\<open>leave_room\<close>).
\<close>

inductive reachable :: "server \<Rightarrow> bool" where
  start: "reachable initial"
| post_join: "reachable st \<Longrightarrow> reachable (snd (snd (http_join st roomId uname now rnd)))"
| post_leave: "reachable st \<Longrightarrow> reachable (snd (snd (http_leave st roomId userId uname now)))"
| post_video_state: "reachable st \<Longrightarrow> reachable (snd (snd (http_video_state st roomId ct pl)))"
| post_chat: "reachable st \<Longrightarrow> reachable (snd (snd (http_chat st roomId txt usr now)))"
| on_join_room: "reachable st \<Longrightarrow> reachable (snd (join_room st sid roomId uname now))"
| on_cleanup: "reachable st \<Longrightarrow> reachable (snd (leaveRoomCleanup st sid roomId uname now))"
| on_video_state_update:
    "reachable st \<Longrightarrow> reachable (snd (video_state_update st sid roomId ct pl))"
| on_chat_message:
    "reachable st \<Longrightarrow> reachable (snd (chat_message st roomId txt usr ts now rnd))"

subsection \<open>Small scenarios\<close>

text \<open>
  User \<open>A\<close> has joined room \<open>abc\<close>, the only room, over the fallback path
  (\<open>alone_http\<close>) or over the push path on connection \<open>s1\<close> (\<open>alone_push\<close>).
\<close>

definition abc :: field where
  "abc = Str ''abc''"

definition alone_http :: server where
  "alone_http = snd (snd (http_join initial abc (Str ''A'') 1000 ''k3j2h1g0f''))"

definition alone_push :: server where
  "alone_push = snd (join_room initial ''s1'' abc (Str ''A'') 1000)"

text \<open>
  After \<open>A\<close> on connection \<open>s1\<close>, \<open>B\<close> joins room \<open>abc\<close> on connection \<open>s2\<close> and
  \<open>C\<close> joins it over the fallback path (\<open>watch_party\<close>).
\<close>

definition watch_party :: server where
  "watch_party =
     snd (snd (http_join (snd (join_room alone_push ''s2'' abc (Str ''B'') 2000))
                 abc (Str ''C'') 3000 ''m4n5b6v7c''))"

text \<open>
  A \<^verbatim>\<open>join_room\<close> event whose \<open>roomId\<close> is the empty string creates a room under
  that id (\<open>unnamed_room\<close>).
\<close>

definition unnamed_room :: server where
  "unnamed_room = snd (join_room initial ''s1'' (Str []) (Str ''A'') 1000)"

section \<open>Evaluating the handlers\<close>

lemmas handler_defs =
  http_join_def http_leave_def http_video_state_def http_chat_def
  join_room_def leave_room_def leaveRoomCleanup_def video_state_update_def chat_message_def
  socket_join_def socket_leave_def initial_def emptyRoom_def joinedText_def leftText_def
  toString_def digits.simps digit_def Let_def

lemmas observer_defs =
  room_exists_def participant_of_def usernames_def history_def playback_def no_empty_rooms_def
  abc_def alone_http_def alone_push_def watch_party_def unnamed_room_def

lemma rooms_alone_http:
  "rooms alone_http =
     [(Str ''abc'',
       \<lparr>users = [(''user-1000-k3j2h1g0f'',
                  \<lparr>username = Str ''A'', ident = UserId ''user-1000-k3j2h1g0f''\<rparr>)],
        videoState = \<lparr>currentTime = 0, isPlaying = False\<rparr>,
        messages = [\<lparr>msg_id = ''1000'', user = Str ''System'',
                     msg_text = Str ''A joined the room'', timestamp = 1000\<rparr>]\<rparr>)]"
  by (simp add: handler_defs observer_defs)

lemma rooms_alone_push:
  "rooms alone_push =
     [(Str ''abc'',
       \<lparr>users = [(''s1'', \<lparr>username = Str ''A'', ident = SocketId ''s1''\<rparr>)],
        videoState = \<lparr>currentTime = 0, isPlaying = False\<rparr>,
        messages = []\<rparr>)]"
  by (simp add: handler_defs observer_defs)

section \<open>Association lists\<close>

lemma list_all_update:
  "list_all P al \<Longrightarrow> P (k, v) \<Longrightarrow> list_all P (AList.update k v al)"
  by (induction al) auto

lemma list_all_delete:
  "list_all P al \<Longrightarrow> list_all P (AList.delete k al)"
  by (induction al) auto

lemma map_of_list_all:
  "list_all P al \<Longrightarrow> map_of al k = Some v \<Longrightarrow> P (k, v)"
  by (induction al) (auto split: if_splits)

lemma update_absent: "map_of al k = None \<Longrightarrow> AList.update k v al = al @ [(k, v)]"
  by (induction al) (auto split: if_splits)

lemma evictUsername_no_match:
  "filter (\<lambda>(k, u). username u = name) (evictUsername name us) = []"
  by (induction us) auto

lemma update_one_match:
  "filter (\<lambda>(k, u). username u = name) us = [] \<Longrightarrow> username v = name \<Longrightarrow>
   length (filter (\<lambda>(k, u). username u = name) (AList.update key v us)) = 1"
  by (induction us) (auto split: if_splits)

lemma filter_usernames:
  "filter (\<lambda>n. n = name) (map (\<lambda>(k, u). username u) us)
     = map (\<lambda>(k, u). username u) (filter (\<lambda>(k, u). username u = name) us)"
  by (induction us) auto

section \<open>No room without participants\<close>

lemma rooms_socket_leave [simp]: "rooms (socket_leave st sid r) = rooms st"
  by (simp add: socket_leave_def)

lemma rooms_socket_join [simp]: "rooms (socket_join st sid r) = rooms st"
  by (simp add: socket_join_def)

lemma no_empty_update:
  "no_empty_rooms st \<Longrightarrow> users r \<noteq> [] \<Longrightarrow>
   no_empty_rooms (st\<lparr>rooms := AList.update k r (rooms st)\<rparr>)"
  by (simp add: no_empty_rooms_def list_all_update)

lemma no_empty_delete:
  "no_empty_rooms st \<Longrightarrow> no_empty_rooms (st\<lparr>rooms := AList.delete k (rooms st)\<rparr>)"
  by (simp add: no_empty_rooms_def list_all_delete)

lemma no_empty_lookup:
  "no_empty_rooms st \<Longrightarrow> map_of (rooms st) k = Some r \<Longrightarrow> users r \<noteq> []"
  using map_of_list_all [of "\<lambda>(k, r). users r \<noteq> []" "rooms st" k r]
  by (simp add: no_empty_rooms_def)

lemma no_empty_socket_leave [simp]:
  "no_empty_rooms (socket_leave st sid r) = no_empty_rooms st"
  by (simp add: no_empty_rooms_def)

lemma no_empty_socket_join [simp]:
  "no_empty_rooms (socket_join st sid r) = no_empty_rooms st"
  by (simp add: no_empty_rooms_def)

lemma no_empty_http_leave:
  "no_empty_rooms st \<Longrightarrow> no_empty_rooms (snd (snd (http_leave st roomId userId uname now)))"
  by (auto simp: http_leave_def Let_def no_empty_update no_empty_delete split: option.splits)

lemma no_empty_leaveRoomCleanup:
  "no_empty_rooms st \<Longrightarrow> no_empty_rooms (snd (leaveRoomCleanup st sid roomId uname now))"
  by (auto simp: leaveRoomCleanup_def Let_def no_empty_update no_empty_delete
      split: option.splits)

lemma no_empty_http_join:
  "no_empty_rooms st \<Longrightarrow> no_empty_rooms (snd (snd (http_join st roomId uname now rnd)))"
  by (auto simp: http_join_def Let_def AList.update_conv' no_empty_rooms_def list_all_update
      split: option.splits)

lemma no_empty_join_room:
  "no_empty_rooms st \<Longrightarrow> no_empty_rooms (snd (join_room st sid roomId uname now))"
  using no_empty_leaveRoomCleanup [of st sid roomId uname now]
  by (auto simp: join_room_def Let_def AList.update_conv' no_empty_rooms_def list_all_update
      split: option.splits prod.splits)

lemma no_empty_http_video_state:
  "no_empty_rooms st \<Longrightarrow> no_empty_rooms (snd (snd (http_video_state st roomId ct pl)))"
  by (auto simp: http_video_state_def intro!: no_empty_update
      split: option.splits dest: no_empty_lookup)

lemma no_empty_video_state_update:
  "no_empty_rooms st \<Longrightarrow> no_empty_rooms (snd (video_state_update st sid roomId ct pl))"
  by (auto simp: video_state_update_def intro!: no_empty_update
      split: option.splits dest: no_empty_lookup)

lemma no_empty_http_chat:
  "no_empty_rooms st \<Longrightarrow> no_empty_rooms (snd (snd (http_chat st roomId txt usr now)))"
  by (auto simp: http_chat_def Let_def intro!: no_empty_update
      split: option.splits dest: no_empty_lookup)

lemma no_empty_chat_message:
  "no_empty_rooms st \<Longrightarrow> no_empty_rooms (snd (chat_message st roomId txt usr ts now rnd))"
  by (auto simp: chat_message_def Let_def intro!: no_empty_update
      split: option.splits dest: no_empty_lookup)

text \<open>Every state the server can reach is free of empty rooms.\<close>

lemma reachable_no_empty_rooms: "reachable st \<Longrightarrow> no_empty_rooms st"
proof (induction rule: reachable.induct)
  case start
  show ?case by (simp add: initial_def no_empty_rooms_def)
qed (simp_all add: no_empty_http_join no_empty_http_leave no_empty_http_video_state
      no_empty_http_chat no_empty_join_room no_empty_leaveRoomCleanup
      no_empty_video_state_update no_empty_chat_message)

lemma usernames_single:
  assumes "length (usernames st roomId) = 1"
  obtains room k u where "map_of (rooms st) roomId = Some room" and "users room = [(k, u)]"
proof (cases "map_of (rooms st) roomId")
  case None
  with assms show ?thesis by (simp add: usernames_def)
next
  case (Some room)
  with assms have "length (users room) = Suc 0" by (simp add: usernames_def)
  then obtain e where "users room = [e]" by (cases "users room") auto
  with Some that show ?thesis by (cases e) auto
qed

lemma http_leave_sole:
  "map_of (rooms st) roomId = Some room \<Longrightarrow> users room = [(k, u)] \<Longrightarrow>
   fst (fst (http_leave st roomId userId uname now)) = 200 \<Longrightarrow>
   map_of (rooms (snd (snd (http_leave st roomId userId uname now)))) roomId = None"
  by (auto simp: http_leave_def Let_def AList.delete_conv split: option.splits if_splits)

lemma leaveRoomCleanup_sole:
  "map_of (rooms st) roomId = Some room \<Longrightarrow> users room = [(k, u)] \<Longrightarrow>
   fst (leaveRoomCleanup st sid roomId uname now) \<noteq> [] \<Longrightarrow>
   map_of (rooms (snd (leaveRoomCleanup st sid roomId uname now))) roomId = None"
  by (auto simp: leaveRoomCleanup_def socket_leave_def Let_def AList.delete_conv
      split: option.splits if_splits)

lemma http_leave_last:
  assumes "length (usernames st roomId) = 1"
    and "fst (fst (http_leave st roomId userId uname now)) = 200"
  shows "\<not> room_exists (snd (snd (http_leave st roomId userId uname now))) roomId"
proof -
  from assms(1) obtain room k u
    where r: "map_of (rooms st) roomId = Some room" and u: "users room = [(k, u)]"
    by (rule usernames_single)
  from http_leave_sole [OF r u assms(2)] show ?thesis
    by (simp add: room_exists_def)
qed

lemma leaveRoomCleanup_last:
  assumes "length (usernames st roomId) = 1"
    and "fst (leaveRoomCleanup st sid roomId uname now) \<noteq> []"
  shows "\<not> room_exists (snd (leaveRoomCleanup st sid roomId uname now)) roomId"
proof -
  from assms(1) obtain room k u
    where r: "map_of (rooms st) roomId = Some room" and u: "users room = [(k, u)]"
    by (rule usernames_single)
  from leaveRoomCleanup_sole [OF r u assms(2)] show ?thesis
    by (simp add: room_exists_def)
qed

text \<open>
  C1. A leave that removes the last participant of a room deletes the room in the same
  operation, on the fallback path (\<^verbatim>\<open>POST /api/room/leave\<close>) and on the push path
  (\<^verbatim>\<open>leave_room\<close>, i.e. \<^verbatim>\<open>leaveRoomCleanup\<close>): a leave that succeeds on a room with one
  participant entry leaves the registry without that room, and a registry free of empty
  rooms (as every reachable one is, \<open>reachable_no_empty_rooms\<close>) is still free of them
  when the leave has completed, whatever its outcome.
\<close>

theorem leave_deletes_emptied_room:
  "(no_empty_rooms st \<longrightarrow>
      no_empty_rooms (snd (snd (http_leave st roomId userId uname now))))
 \<and> (no_empty_rooms st \<longrightarrow>
      no_empty_rooms (snd (leave_room st sid roomId hint now)))
 \<and> (length (usernames st roomId) = 1 \<and>
      fst (fst (http_leave st roomId userId uname now)) = 200 \<longrightarrow>
      \<not> room_exists (snd (snd (http_leave st roomId userId uname now))) roomId)
 \<and> (length (usernames st roomId) = 1 \<and>
      fst (leave_room st sid roomId hint now) \<noteq> [] \<longrightarrow>
      \<not> room_exists (snd (leave_room st sid roomId hint now)) roomId)"
  using no_empty_http_leave no_empty_leaveRoomCleanup http_leave_last leaveRoomCleanup_last
  by (simp add: leave_room_def)

theorem leave_deletes_emptied_room_witness:
  "no_empty_rooms alone_http
 \<and> length (usernames alone_http abc) = 1
 \<and> fst (fst (http_leave alone_http abc (Str ''user-1000-k3j2h1g0f'') Undefined 2000)) = 200
 \<and> fst (leave_room alone_http ''s1'' abc (Str ''A'') 2000) \<noteq> []
 \<and> no_empty_rooms
      (snd (snd (http_leave alone_http abc (Str ''user-1000-k3j2h1g0f'') Undefined 2000)))
 \<and> no_empty_rooms (snd (leave_room alone_http ''s1'' abc (Str ''A'') 2000))
 \<and> \<not> room_exists
      (snd (snd (http_leave alone_http abc (Str ''user-1000-k3j2h1g0f'') Undefined 2000))) abc
 \<and> \<not> room_exists (snd (leave_room alone_http ''s1'' abc (Str ''A'') 2000)) abc"
  using leave_deletes_emptied_room
    [of alone_http abc "Str ''user-1000-k3j2h1g0f''" Undefined 2000 "''s1''" "Str ''A''"]
  by (simp add: handler_defs observer_defs)

section \<open>Joining under a username already present\<close>

text \<open>
  The fallback handler evicts every entry with the joining username and then inserts
  the new one, so a successful \<^verbatim>\<open>POST /api/room/join\<close> leaves exactly one entry
  with that username.
\<close>

lemma http_join_one_username:
  "fst (fst (http_join st roomId uname now rnd)) = 200 \<Longrightarrow>
   length (filter (\<lambda>n. n = uname)
     (usernames (snd (snd (http_join st roomId uname now rnd))) roomId)) = 1"
  by (auto simp: http_join_def Let_def usernames_def AList.update_conv' filter_usernames
      evictUsername_no_match update_one_match split: option.splits if_splits)

text \<open>
  \<^verbatim>\<open>join_room\<close> on a connection that is new to the room adds its entry and removes
  none, whatever the usernames already present.
\<close>

lemma join_room_adds_entry:
  "map_of (rooms st) roomId = Some room \<Longrightarrow> roomId \<notin> userRooms st sid \<Longrightarrow>
   map_of (users room) sid = None \<Longrightarrow>
   usernames (snd (join_room st sid roomId uname now)) roomId
     = map (\<lambda>(k, u). username u) (users room) @ [uname]"
  by (simp add: join_room_def socket_join_def usernames_def Let_def AList.update_conv'
      update_absent)

text \<open>
  C2. On the push path the eviction is missing. \<^verbatim>\<open>join_room\<close> calls
  \<^verbatim>\<open>leaveRoomCleanup\<close> only when this very connection is already in the room, and
  then stores the new entry under \<^verbatim>\<open>socket.id\<close>. Connection \<open>s1\<close> joins room \<open>abc\<close>
  as \<open>A\<close>; connection \<open>s2\<close> then joins the same room as \<open>A\<close>: the room holds two
  entries with username \<open>A\<close>, where the fallback path would hold one.
\<close>

theorem join_room_keeps_stale_username:
  "usernames (snd (join_room alone_push ''s2'' abc (Str ''A'') 2000)) abc = [Str ''A'', Str ''A'']"
  by (simp add: handler_defs observer_defs)

text \<open>The same second join over the fallback path leaves one entry.\<close>

lemma http_join_evicts_stale_username:
  "usernames (snd (snd (http_join alone_push abc (Str ''A'') 2000 ''k3j2h1g0f''))) abc = [Str ''A'']"
  by (simp add: handler_defs observer_defs)

section \<open>Chat: the two-second duplicate guard\<close>

text \<open>
  The push handler drops a message when the history holds one with the same user and
  text whose timestamp is less than 2000 ms before \<open>now\<close>, and stores it otherwise.
\<close>

lemma chat_message_drops_recent_duplicate:
  "map_of (rooms st) roomId = Some room \<Longrightarrow> m \<in> set (messages room) \<Longrightarrow>
   user m = usr \<Longrightarrow> msg_text m = txt \<Longrightarrow> now - timestamp m < 2000 \<Longrightarrow>
   chat_message st roomId txt usr ts now rnd = ([], st)"
  by (auto simp: chat_message_def Let_def filter_empty_conv)

lemma chat_message_stores_otherwise:
  "map_of (rooms st) roomId = Some room \<Longrightarrow>
   \<forall>m \<in> set (messages room). user m = usr \<and> msg_text m = txt \<longrightarrow> 2000 \<le> now - timestamp m \<Longrightarrow>
   history (snd (chat_message st roomId txt usr ts now rnd)) roomId
     = messages room @ [\<lparr>msg_id = toString now @ ''-'' @ rnd, user = usr, msg_text = txt,
                          timestamp = (case ts of None \<Rightarrow> now | Some t \<Rightarrow> t)\<rparr>]"
  by (auto simp: chat_message_def Let_def filter_empty_conv history_def AList.update_conv')

text \<open>Every accepted \<^verbatim>\<open>POST /api/room/chat\<close> appends its message.\<close>

lemma http_chat_always_stores:
  "fst (fst (http_chat st roomId txt usr now)) = 200 \<Longrightarrow>
   history (snd (snd (http_chat st roomId txt usr now))) roomId
     = history st roomId
       @ [\<lparr>msg_id = toString now, user = usr, msg_text = txt, timestamp = now\<rparr>]"
  by (auto simp: http_chat_def history_def Let_def AList.update_conv'
      split: option.splits if_splits)

text \<open>
  C3. The fallback handler \<^verbatim>\<open>POST /api/room/chat\<close> has no such guard: it appends
  every message. In room \<open>abc\<close>, \<open>A\<close> posts \<open>hi\<close> at 1200 ms and again at 1500 ms,
  300 ms later: the history holds \<open>hi\<close> twice. The same second post sent as a
  \<^verbatim>\<open>chat_message\<close> event is dropped.
\<close>

theorem http_chat_stores_rapid_duplicate:
  "map msg_text (history (snd (snd (http_chat
      (snd (snd (http_chat alone_http abc (Str ''hi'') (Str ''A'') 1200)))
      abc (Str ''hi'') (Str ''A'') 1500))) abc)
     = [Str ''A joined the room'', Str ''hi'', Str ''hi'']
 \<and> map msg_text (history (snd (chat_message
      (snd (snd (http_chat alone_http abc (Str ''hi'') (Str ''A'') 1200)))
      abc (Str ''hi'') (Str ''A'') None 1500 ''q9w8e7r6t'')) abc)
     = [Str ''A joined the room'', Str ''hi'']"
  by (simp add: handler_defs observer_defs)

theorem http_chat_stores_rapid_duplicate_witness:
  "count_list (map msg_text (history (snd (snd (http_chat
      (snd (snd (http_chat alone_http abc (Str ''hi'') (Str ''A'') 1200)))
      abc (Str ''hi'') (Str ''A'') 1500))) abc)) (Str ''hi'') = 2"
  using http_chat_stores_rapid_duplicate by simp

section \<open>System messages on join and leave\<close>

text \<open>
  A successful \<^verbatim>\<open>POST /api/room/join\<close> appends one system message to the history and
  broadcasts that message once.
\<close>

lemma http_join_appends_once:
  "fst (fst (http_join st roomId uname now rnd)) = 200 \<Longrightarrow>
   history (snd (snd (http_join st roomId uname now rnd))) roomId
     = history st roomId @ [\<lparr>msg_id = toString now, user = Str ''System'',
                              msg_text = joinedText uname, timestamp = now\<rparr>]
   \<and> fst (snd (http_join st roomId uname now rnd))
     = [(ToRoom roomId, UserJoined \<lparr>msg_id = toString now, user = Str ''System'',
                                     msg_text = joinedText uname, timestamp = now\<rparr>)]"
  by (auto simp: http_join_def Let_def history_def AList.update_conv' emptyRoom_def
      split: option.splits if_splits)

text \<open>
  The push handlers leave the history as it is: \<^verbatim>\<open>join_room\<close> on a connection new
  to the room, and \<^verbatim>\<open>leaveRoomCleanup\<close> whenever the room is still there afterwards.
\<close>

lemma join_room_keeps_history:
  "roomId \<notin> userRooms st sid \<Longrightarrow>
   history (snd (join_room st sid roomId uname now)) roomId = history st roomId"
  by (auto simp: join_room_def socket_join_def history_def Let_def AList.update_conv'
      emptyRoom_def split: option.splits)

lemma leaveRoomCleanup_keeps_history:
  "history (snd (leaveRoomCleanup st sid roomId uname now)) roomId = history st roomId
   \<or> \<not> room_exists (snd (leaveRoomCleanup st sid roomId uname now)) roomId"
proof (cases "map_of (rooms st) roomId")
  case None
  then show ?thesis by (simp add: leaveRoomCleanup_def)
next
  case room: (Some room)
  show ?thesis
  proof (cases "map_of (users room) sid")
    case (Some u)
    with room show ?thesis
      by (simp add: leaveRoomCleanup_def socket_leave_def history_def room_exists_def Let_def
          AList.update_conv' AList.delete_conv)
  next
    case None
    show ?thesis
    proof (cases "findByUsername uname (users room)")
      case nobody: None
      with room None show ?thesis
        by (simp add: leaveRoomCleanup_def socket_leave_def history_def)
    next
      case (Some e)
      with room None show ?thesis
        by (cases e)
          (simp add: leaveRoomCleanup_def socket_leave_def history_def room_exists_def Let_def
            AList.update_conv' AList.delete_conv)
    qed
  qed
qed

text \<open>
  C4. The push handlers broadcast the join and leave notices but never store them:
  neither \<^verbatim>\<open>join_room\<close> nor \<^verbatim>\<open>leaveRoomCleanup\<close> touches \<^verbatim>\<open>room.messages\<close>, and
  the notice carries the username, not \<open>System\<close>, as its user. After \<open>s1\<close> joins
  room \<open>abc\<close> as \<open>A\<close>, one \<^verbatim>\<open>user_joined\<close> notice has gone out and the history is
  empty; after \<open>s2\<close> joins as \<open>B\<close> and leaves, one \<^verbatim>\<open>user_left\<close> notice has gone out
  and the history is still empty.
\<close>

theorem join_room_stores_no_system_message:
  "fst (join_room initial ''s1'' abc (Str ''A'') 1000) =
     [(ToRoom (Str ''abc''),
       UserJoined \<lparr>msg_id = ''1000'', user = Str ''A'',
                   msg_text = Str ''A joined the room'', timestamp = 1000\<rparr>),
      (ToSocket ''s1'',
       RoomUsers [\<lparr>username = Str ''A'', ident = SocketId ''s1''\<rparr>]
         \<lparr>currentTime = 0, isPlaying = False\<rparr> [])]
 \<and> history alone_push abc = []
 \<and> fst (leave_room (snd (join_room alone_push ''s2'' abc (Str ''B'') 2000))
           ''s2'' abc (Str ''B'') 3000) =
     [(ToRoom (Str ''abc''),
       UserLeft \<lparr>msg_id = ''3000'', user = Str ''B'',
                 msg_text = Str ''B left the room'', timestamp = 3000\<rparr>)]
 \<and> history (snd (leave_room (snd (join_room alone_push ''s2'' abc (Str ''B'') 2000))
           ''s2'' abc (Str ''B'') 3000)) abc = []"
  by (simp add: handler_defs observer_defs)

section \<open>Who is subscribed to a room\<close>

text \<open>
  \<^verbatim>\<open>socket.join\<close> is called by \<^verbatim>\<open>join_room\<close> alone, and \<^verbatim>\<open>leaveRoomCleanup\<close>
  removes the leaving connection's entry before \<^verbatim>\<open>socket.leave\<close>: in every reachable
  state the participants stored by the push path are subscribed to their room.
  The fallback handlers never subscribe anyone.
\<close>

lemma set_update_cases:
  "p \<in> set (AList.update k v al) \<Longrightarrow> p = (k, v) \<or> p \<in> set al"
  by (induction al) (auto split: if_splits)

lemma set_delete_cases:
  "p \<in> set (AList.delete k al) \<Longrightarrow> p \<in> set al \<and> fst p \<noteq> k"
  by (auto simp: AList.delete_eq)

lemma set_evictUsername: "p \<in> set (evictUsername name us) \<Longrightarrow> p \<in> set us"
  by (induction us) (auto split: if_splits)

lemma pps_update:
  assumes "push_participants_subscribed st"
    and "\<And>k u. (k, u) \<in> set (users room') \<Longrightarrow> ident u = SocketId k \<Longrightarrow> k \<in> subscribers st r"
  shows "push_participants_subscribed (st\<lparr>rooms := AList.update r room' (rooms st)\<rparr>)"
  using assms unfolding push_participants_subscribed_def
  by (auto simp: AList.update_conv' split: if_splits)

lemma pps_delete:
  "push_participants_subscribed st \<Longrightarrow>
   push_participants_subscribed (st\<lparr>rooms := AList.delete r (rooms st)\<rparr>)"
  unfolding push_participants_subscribed_def
  by (simp add: AList.delete_conv) 

lemma pps_lookup:
  "push_participants_subscribed st \<Longrightarrow> map_of (rooms st) r = Some room \<Longrightarrow>
   (k, u) \<in> set (users room) \<Longrightarrow> ident u = SocketId k \<Longrightarrow> k \<in> subscribers st r"
  unfolding push_participants_subscribed_def by blast

lemma pps_socket_join:
  "push_participants_subscribed st \<Longrightarrow> push_participants_subscribed (socket_join st sid r)"
  unfolding push_participants_subscribed_def socket_join_def by auto

lemma pps_http_join:
  assumes inv: "push_participants_subscribed st"
  shows "push_participants_subscribed (snd (snd (http_join st roomId uname now rnd)))"
proof (cases "truthy roomId \<and> truthy uname")
  case False
  with inv show ?thesis by (auto simp: http_join_def)
next
  case ok: True
  define room where "room = (case map_of (rooms st) roomId of None \<Rightarrow> emptyRoom | Some r \<Rightarrow> r)"
  define userId where "userId = ''user-'' @ toString now @ ''-'' @ rnd"
  define room' where "room' = room\<lparr>users := AList.update userId \<lparr>username = uname, ident = UserId userId\<rparr>
      (evictUsername uname (users room)),
      messages := messages room @ [\<lparr>msg_id = toString now, user = Str ''System'',
                                msg_text = joinedText uname, timestamp = now\<rparr>]\<rparr>"
  have after: "snd (snd (http_join st roomId uname now rnd))
      = st\<lparr>rooms := AList.update roomId room' (rooms st)\<rparr>"
    using ok by (simp add: http_join_def Let_def room_def room'_def userId_def AList.update_conv'
        split: option.splits)
  have "k \<in> subscribers st roomId" if "(k, u) \<in> set (users room')" "ident u = SocketId k" for k u
  proof -
    from that have "(k, u) \<in> set (evictUsername uname (users room))"
      by (auto simp: room'_def dest!: set_update_cases)
    then have in_room: "(k, u) \<in> set (users room)" by (rule set_evictUsername)
    show ?thesis
    proof (cases "map_of (rooms st) roomId")
      case None
      with in_room show ?thesis by (simp add: room_def emptyRoom_def)
    next
      case (Some r)
      with in_room have "(k, u) \<in> set (users r)" by (simp add: room_def)
      from pps_lookup [OF inv Some this that(2)] show ?thesis .
    qed
  qed
  with inv show ?thesis unfolding after by (rule pps_update)
qed

lemma pps_socket_leave:
  assumes "push_participants_subscribed st"
    and "\<And>room u. map_of (rooms st) r = Some room \<Longrightarrow> (sid, u) \<notin> set (users room)"
  shows "push_participants_subscribed (socket_leave st sid r)"
  using assms unfolding push_participants_subscribed_def socket_leave_def by auto

lemma pps_http_video_state:
  assumes inv: "push_participants_subscribed st"
  shows "push_participants_subscribed (snd (snd (http_video_state st roomId ct pl)))"
  using inv
  by (auto simp: http_video_state_def split: option.splits
      intro!: pps_update dest: pps_lookup)

lemma pps_video_state_update:
  assumes inv: "push_participants_subscribed st"
  shows "push_participants_subscribed (snd (video_state_update st sid roomId ct pl))"
  using inv
  by (auto simp: video_state_update_def split: option.splits
      intro!: pps_update dest: pps_lookup)

lemma pps_http_chat:
  assumes inv: "push_participants_subscribed st"
  shows "push_participants_subscribed (snd (snd (http_chat st roomId txt usr now)))"
  using inv
  by (auto simp: http_chat_def Let_def split: option.splits
      intro!: pps_update dest: pps_lookup)

lemma pps_chat_message:
  assumes inv: "push_participants_subscribed st"
  shows "push_participants_subscribed (snd (chat_message st roomId txt usr ts now rnd))"
  using inv
  by (auto simp: chat_message_def Let_def split: option.splits
      intro!: pps_update dest: pps_lookup)

lemma pps_http_leave:
  assumes inv: "push_participants_subscribed st"
  shows "push_participants_subscribed (snd (snd (http_leave st roomId userId uname now)))"
  using inv
  by (auto simp: http_leave_def Let_def split: option.splits
      intro!: pps_update pps_delete dest!: set_delete_cases dest: pps_lookup)

lemma not_in_delete: "(k, u) \<notin> set (AList.delete k al)"
  by (auto simp: AList.delete_eq)

lemma not_in_absent: "map_of al k = None \<Longrightarrow> (k, u) \<notin> set al"
  by (auto simp: map_of_eq_None_iff intro: rev_image_eqI)

lemma pps_cleanup_step:
  assumes inv: "push_participants_subscribed st"
    and room: "map_of (rooms st) roomId = Some room"
    and sub: "set us \<subseteq> set (users room)"
    and gone: "\<And>u. (sid, u) \<notin> set us"
  shows "push_participants_subscribed
     (socket_leave (st\<lparr>rooms := (if us = [] then AList.delete roomId (rooms st)
          else AList.update roomId (room\<lparr>users := us\<rparr>) (rooms st))\<rparr>) sid roomId)"
proof (cases "us = []")
  case True
  have "push_participants_subscribed (st\<lparr>rooms := AList.delete roomId (rooms st)\<rparr>)"
    using inv by (rule pps_delete)
  then show ?thesis using True
    by (intro pps_socket_leave) (simp_all add: AList.delete_conv)
next
  case False
  have "push_participants_subscribed (st\<lparr>rooms := AList.update roomId (room\<lparr>users := us\<rparr>) (rooms st)\<rparr>)"
    using inv
  proof (rule pps_update)
    fix k u assume "(k, u) \<in> set (users (room\<lparr>users := us\<rparr>))" "ident u = SocketId k"
    with sub have "(k, u) \<in> set (users room)" by auto
    from pps_lookup [OF inv room this \<open>ident u = SocketId k\<close>] show "k \<in> subscribers st roomId" .
  qed
  then show ?thesis using False gone
    by (intro pps_socket_leave) (auto simp: AList.update_conv')
qed

lemma pps_leaveRoomCleanup:
  assumes inv: "push_participants_subscribed st"
  shows "push_participants_subscribed (snd (leaveRoomCleanup st sid roomId uname now))"
proof (cases "map_of (rooms st) roomId")
  case None
  with inv show ?thesis by (simp add: leaveRoomCleanup_def)
next
  case room: (Some room)
  show ?thesis
  proof (cases "map_of (users room) sid")
    case (Some u)
    have "push_participants_subscribed
     (socket_leave (st\<lparr>rooms := (if AList.delete sid (users room) = [] then AList.delete roomId (rooms st)
          else AList.update roomId (room\<lparr>users := AList.delete sid (users room)\<rparr>) (rooms st))\<rparr>) sid roomId)"
      using inv room by (rule pps_cleanup_step) (auto simp: AList.delete_eq)
    with room Some show ?thesis
      by (simp add: leaveRoomCleanup_def Let_def split: if_splits)
  next
    case None
    show ?thesis
    proof (cases "truthy uname")
      case False
      with room None have "snd (leaveRoomCleanup st sid roomId uname now) = socket_leave st sid roomId"
        by (simp add: leaveRoomCleanup_def)
      moreover have "push_participants_subscribed (socket_leave st sid roomId)"
        using inv room None by (intro pps_socket_leave) (auto dest: not_in_absent)
      ultimately show ?thesis by simp
    next
      case True
      show ?thesis
      proof (cases "findByUsername uname (users room)")
        case nobody: None
        with room None True have "snd (leaveRoomCleanup st sid roomId uname now) = socket_leave st sid roomId"
          by (simp add: leaveRoomCleanup_def)
        moreover have "push_participants_subscribed (socket_leave st sid roomId)"
          using inv room None by (intro pps_socket_leave) (auto dest: not_in_absent)
        ultimately show ?thesis by simp
      next
        case (Some e)
        obtain k u where e: "e = (k, u)" by (cases e)
        have absent: "map_of (AList.delete k (users room)) sid = None"
          using None by (simp add: AList.delete_conv)
        have "push_participants_subscribed
         (socket_leave (st\<lparr>rooms := (if AList.delete k (users room) = [] then AList.delete roomId (rooms st)
              else AList.update roomId (room\<lparr>users := AList.delete k (users room)\<rparr>) (rooms st))\<rparr>) sid roomId)"
          using inv room
        proof (rule pps_cleanup_step)
          show "set (AList.delete k (users room)) \<subseteq> set (users room)" by (auto simp: AList.delete_eq)
          show "(sid, u') \<notin> set (AList.delete k (users room))" for u'
            using absent by (rule not_in_absent)
        qed
        with room None True Some e absent show ?thesis
          by (simp add: leaveRoomCleanup_def Let_def split: if_splits)
      qed
    qed
  qed
qed

lemma pps_join_tail:
  fixes st0 :: server and sid :: string and roomId :: field
  assumes inv: "push_participants_subscribed st0"
  defines "st1 \<equiv> socket_join st0 sid roomId"
  defines "rs \<equiv> (if map_of (rooms st1) roomId = None
               then AList.update roomId emptyRoom (rooms st1) else rooms st1)"
  assumes room: "map_of rs roomId = Some room"
  shows "push_participants_subscribed
           (st1\<lparr>rooms := AList.update roomId
              (room\<lparr>users := AList.update sid \<lparr>username = uname, ident = SocketId sid\<rparr> (users room)\<rparr>)
              rs\<rparr>)"
proof -
  have inv1: "push_participants_subscribed st1"
    unfolding st1_def using inv by (rule pps_socket_join)
  have sub: "sid \<in> subscribers st1 roomId"
    by (simp add: st1_def socket_join_def)
  have inv2: "push_participants_subscribed (st1\<lparr>rooms := rs\<rparr>)"
  proof (cases "map_of (rooms st1) roomId = None")
    case True
    have "push_participants_subscribed (st1\<lparr>rooms := AList.update roomId emptyRoom (rooms st1)\<rparr>)"
      using inv1 by (rule pps_update) (simp add: emptyRoom_def)
    with True show ?thesis by (simp add: rs_def)
  next
    case False
    with inv1 show ?thesis by (auto simp: rs_def)
  qed
  have "push_participants_subscribed
     ((st1\<lparr>rooms := rs\<rparr>)\<lparr>rooms := AList.update roomId
        (room\<lparr>users := AList.update sid \<lparr>username = uname, ident = SocketId sid\<rparr> (users room)\<rparr>)
        (rooms (st1\<lparr>rooms := rs\<rparr>))\<rparr>)"
    using inv2
  proof (rule pps_update)
    fix k u
    assume mem: "(k, u) \<in> set (users (room\<lparr>users :=
        AList.update sid \<lparr>username = uname, ident = SocketId sid\<rparr> (users room)\<rparr>))"
      and push: "ident u = SocketId k"
    from mem have "(k, u) = (sid, \<lparr>username = uname, ident = SocketId sid\<rparr>) \<or> (k, u) \<in> set (users room)"
      by (auto dest: set_update_cases)
    then show "k \<in> subscribers (st1\<lparr>rooms := rs\<rparr>) roomId"
    proof
      assume "(k, u) = (sid, \<lparr>username = uname, ident = SocketId sid\<rparr>)"
      with sub show ?thesis by simp
    next
      assume "(k, u) \<in> set (users room)"
      from pps_lookup [OF inv2 _ this push, of roomId] room show ?thesis by simp
    qed
  qed
  then show ?thesis by simp
qed

lemma pps_join_room:
  assumes inv: "push_participants_subscribed st"
  shows "push_participants_subscribed (snd (join_room st sid roomId uname now))"
proof -
  define st0 where "st0 = snd (if roomId \<in> userRooms st sid
      then leaveRoomCleanup st sid roomId uname now else ([], st))"
  have inv0: "push_participants_subscribed st0"
    unfolding st0_def using inv by (simp add: pps_leaveRoomCleanup)
  define rs where "rs = (if map_of (rooms (socket_join st0 sid roomId)) roomId = None
      then AList.update roomId emptyRoom (rooms (socket_join st0 sid roomId))
      else rooms (socket_join st0 sid roomId))"
  obtain room where room: "map_of rs roomId = Some room"
    by (cases "map_of (rooms (socket_join st0 sid roomId)) roomId")
      (auto simp: rs_def AList.update_conv')
  have "snd (join_room st sid roomId uname now) =
      (socket_join st0 sid roomId)\<lparr>rooms := AList.update roomId
        (room\<lparr>users := AList.update sid \<lparr>username = uname, ident = SocketId sid\<rparr> (users room)\<rparr>) rs\<rparr>"
    unfolding join_room_def Let_def split_beta st0_def [symmetric] rs_def [symmetric]
    using room by simp
  moreover from pps_join_tail [OF inv0, of sid roomId room uname] room
  have "push_participants_subscribed ((socket_join st0 sid roomId)\<lparr>rooms := AList.update roomId
        (room\<lparr>users := AList.update sid \<lparr>username = uname, ident = SocketId sid\<rparr> (users room)\<rparr>) rs\<rparr>)"
    by (simp add: rs_def)
  ultimately show ?thesis by simp
qed

lemma reachable_push_participants_subscribed:
  "reachable st \<Longrightarrow> push_participants_subscribed st"
proof (induction rule: reachable.induct)
  case start
  show ?case by (simp add: initial_def push_participants_subscribed_def)
qed (simp_all add: pps_http_join pps_http_leave pps_http_video_state pps_http_chat
      pps_join_room pps_leaveRoomCleanup pps_video_state_update pps_chat_message)

section \<open>Playback updates\<close>

lemma reachable_watch_party: "reachable watch_party"
  unfolding watch_party_def alone_push_def
  by (intro reachable.intros)

lemma push_participant_subscribed:
  assumes "reachable st" and "participant_of st roomId k = Some w" and "ident w = SocketId k"
  shows "k \<in> subscribers st roomId"
proof -
  from assms(2) obtain room where room: "map_of (rooms st) roomId = Some room"
    and w: "map_of (users room) k = Some w"
    by (auto simp: participant_of_def split: option.splits)
  from w have "(k, w) \<in> set (users room)" by (rule map_of_SomeD)
  from pps_lookup [OF reachable_push_participants_subscribed [OF assms(1)] room this assms(3)]
  show ?thesis .
qed

text \<open>
  C5, as the code has it. A playback update for an existing room that the handler
  accepts overwrites the room's snapshot with the reported pair, whatever the snapshot
  was. The push handler accepts an update sent on a connection that is registered as a
  participant of the room, and broadcasts it to every connection subscribed to the room
  except the sender: these include every other participant that joined over the push
  path. The fallback handler accepts an update whose \<open>roomId\<close> is not empty, and
  broadcasts it to every connection subscribed to the room: these include every
  participant that joined over the push path. A join over the fallback path subscribes
  no connection, so a participant that joined that way is reached only through a push
  connection of its own.
\<close>

theorem playback_update_overwrites:
  "(participant_of st roomId sid = Some u \<longrightarrow>
      fst (video_state_update st sid roomId ct pl)
        = [(ToRoomExcept roomId sid, VideoStateUpdate ct pl (Some (sid, username u)))]
    \<and> playback (snd (video_state_update st sid roomId ct pl)) roomId
        = Some \<lparr>currentTime = ct, isPlaying = pl\<rparr>
    \<and> recipients (snd (video_state_update st sid roomId ct pl)) (ToRoomExcept roomId sid)
        = subscribers st roomId - {sid})
 \<and> (room_exists st roomId \<and> truthy roomId \<longrightarrow>
      fst (http_video_state st roomId (Some ct) (Some pl)) = (200, Success)
    \<and> fst (snd (http_video_state st roomId (Some ct) (Some pl)))
        = [(ToRoom roomId, VideoStateUpdate ct pl None)]
    \<and> playback (snd (snd (http_video_state st roomId (Some ct) (Some pl)))) roomId
        = Some \<lparr>currentTime = ct, isPlaying = pl\<rparr>
    \<and> recipients (snd (snd (http_video_state st roomId (Some ct) (Some pl)))) (ToRoom roomId)
        = subscribers st roomId)
 \<and> (reachable st \<and> participant_of st roomId sid = Some u \<and>
      participant_of st roomId k = Some w \<and> ident w = SocketId k \<and> k \<noteq> sid \<longrightarrow>
      k \<in> recipients (snd (video_state_update st sid roomId ct pl)) (ToRoomExcept roomId sid))
 \<and> (reachable st \<and> truthy roomId \<and>
      participant_of st roomId k = Some w \<and> ident w = SocketId k \<longrightarrow>
      k \<in> recipients (snd (snd (http_video_state st roomId (Some ct) (Some pl)))) (ToRoom roomId))
 \<and> subscribers (snd (snd (http_join st roomId uname now rnd))) = subscribers st"
proof -
  have join: "subscribers (snd (snd (http_join st roomId uname now rnd))) = subscribers st"
    by (simp add: http_join_def Let_def split: option.splits)
  have push: "recipients (snd (video_state_update st sid roomId ct pl)) t = recipients st t" for t
    by (cases t) (simp_all add: video_state_update_def split: option.splits)
  have http: "recipients (snd (snd (http_video_state st roomId (Some ct) (Some pl)))) t
      = recipients st t" for t
    by (cases t) (simp_all add: http_video_state_def split: option.splits)
  show ?thesis
    using push_participant_subscribed [of st roomId k w]
    by (auto simp: push http join)
      (auto simp: video_state_update_def http_video_state_def playback_def participant_of_def
        room_exists_def AList.update_conv' split: option.splits)
qed

theorem playback_update_overwrites_witness:
  "reachable watch_party \<and> truthy abc \<and> room_exists watch_party abc
 \<and> participant_of watch_party abc ''s1'' = Some \<lparr>username = Str ''A'', ident = SocketId ''s1''\<rparr>
 \<and> participant_of watch_party abc ''s2'' = Some \<lparr>username = Str ''B'', ident = SocketId ''s2''\<rparr>
 \<and> fst (video_state_update watch_party ''s1'' abc 42 True)
      = [(ToRoomExcept abc ''s1'', VideoStateUpdate 42 True (Some (''s1'', Str ''A'')))]
 \<and> playback (snd (video_state_update watch_party ''s1'' abc 42 True)) abc
      = Some \<lparr>currentTime = 42, isPlaying = True\<rparr>
 \<and> ''s2'' \<in> recipients (snd (video_state_update watch_party ''s1'' abc 42 True))
      (ToRoomExcept abc ''s1'')
 \<and> ''s1'' \<notin> recipients (snd (video_state_update watch_party ''s1'' abc 42 True))
      (ToRoomExcept abc ''s1'')
 \<and> fst (http_video_state watch_party abc (Some 42) (Some True)) = (200, Success)
 \<and> playback (snd (snd (http_video_state watch_party abc (Some 42) (Some True)))) abc
      = Some \<lparr>currentTime = 42, isPlaying = True\<rparr>
 \<and> ''s2'' \<in> recipients (snd (snd (http_video_state watch_party abc (Some 42) (Some True))))
      (ToRoom abc)"
  using playback_update_overwrites
    [of watch_party abc "''s1''" "\<lparr>username = Str ''A'', ident = SocketId ''s1''\<rparr>" 42 True
      "''s2''" "\<lparr>username = Str ''B'', ident = SocketId ''s2''\<rparr>"
      "Str ''C''" 3000 "''m4n5b6v7c''"]
    reachable_watch_party
  by (simp add: handler_defs observer_defs watch_party_def)

text \<open>
  C5 as stated fails in three ways. In room \<open>abc\<close>, connection \<open>s9\<close> is not among
  the participants and reports \<open>(42, playing)\<close>: the snapshot stays at \<open>(0, paused)\<close>
  and nothing is sent. In the room with participants \<open>A\<close>, \<open>B\<close> (push path) and
  \<open>C\<close> (fallback path), an update from \<open>A\<close> reaches \<open>s2\<close> alone and an update
  over the fallback path reaches \<open>s1\<close> and \<open>s2\<close>: \<open>C\<close> receives neither. For the
  room whose id is the empty string, the fallback handler answers 400 and leaves
  the snapshot as it was.
\<close>

theorem playback_update_counterexample:
  "room_exists alone_push abc
 \<and> fst (video_state_update alone_push ''s9'' abc 42 True) = []
 \<and> playback (snd (video_state_update alone_push ''s9'' abc 42 True)) abc
      = Some \<lparr>currentTime = 0, isPlaying = False\<rparr>
 \<and> usernames watch_party abc = [Str ''A'', Str ''B'', Str ''C'']
 \<and> participant_of watch_party abc ''user-3000-m4n5b6v7c''
      = Some \<lparr>username = Str ''C'', ident = UserId ''user-3000-m4n5b6v7c''\<rparr>
 \<and> recipients (snd (video_state_update watch_party ''s1'' abc 42 True)) (ToRoomExcept abc ''s1'')
      = {''s2''}
 \<and> recipients (snd (snd (http_video_state watch_party abc (Some 42) (Some True)))) (ToRoom abc)
      = {''s1'', ''s2''}
 \<and> room_exists unnamed_room (Str [])
 \<and> fst (http_video_state unnamed_room (Str []) (Some 42) (Some True))
      = (400, Error ''roomId, currentTime, and isPlaying are required'')
 \<and> playback (snd (snd (http_video_state unnamed_room (Str []) (Some 42) (Some True)))) (Str [])
      = Some \<lparr>currentTime = 0, isPlaying = False\<rparr>"
  by (auto simp: handler_defs observer_defs watch_party_def unnamed_room_def)



text \<open>
  C10. On the push path a playback update for an existing room, sent on a connection
  that is not registered as a participant of that room, changes nothing and sends
  nothing.
\<close>

theorem playback_update_from_non_participant:
  "room_exists st roomId \<and> participant_of st roomId sid = None \<longrightarrow>
     video_state_update st sid roomId ct pl = ([], st)"
  by (auto simp: video_state_update_def room_exists_def participant_of_def split: option.splits)

theorem playback_update_from_non_participant_witness:
  "room_exists alone_push abc \<and> participant_of alone_push abc ''s2'' = None
 \<and> video_state_update alone_push ''s2'' abc 17 False = ([], alone_push)"
  using playback_update_from_non_participant [of alone_push abc "''s2''" 17 False]
  by (simp add: room_exists_def participant_of_def rooms_alone_push abc_def)

section \<open>Joining without a username\<close>

text \<open>The fallback handler rejects a join without a username and changes nothing.\<close>

lemma http_join_missing_username:
  "http_join st roomId Undefined now rnd
     = ((400, Error ''roomId and username are required''), [], st)"
  by (simp add: http_join_def)

text \<open>
  \<^verbatim>\<open>join_room\<close> never rejects: whatever the payload, the sender is stored as a
  participant under the username given and the join notice is broadcast.
\<close>

lemma join_room_always_broadcasts:
  "(ToRoom roomId, UserJoined \<lparr>msg_id = toString now, user = uname,
       msg_text = joinedText uname, timestamp = now\<rparr>)
     \<in> set (fst (join_room st sid roomId uname now))
   \<and> participant_of (snd (join_room st sid roomId uname now)) roomId sid
       = Some \<lparr>username = uname, ident = SocketId sid\<rparr>"
  by (auto simp: join_room_def participant_of_def Let_def AList.update_conv'
      split: option.splits prod.splits)

text \<open>
  C7. The push handler does not check its payload. A \<^verbatim>\<open>join_room\<close> event for room
  \<open>abc\<close> without a username, on connection \<open>s1\<close> and an empty registry, creates the
  room, stores a participant whose username is \<^verbatim>\<open>undefined\<close> and broadcasts
  \<open>undefined joined the room\<close>.
\<close>

theorem join_room_accepts_missing_username:
  "fst (join_room initial ''s1'' abc Undefined 1000) =
     [(ToRoom (Str ''abc''),
       UserJoined \<lparr>msg_id = ''1000'', user = Undefined,
                   msg_text = Str ''undefined joined the room'', timestamp = 1000\<rparr>),
      (ToSocket ''s1'',
       RoomUsers [\<lparr>username = Undefined, ident = SocketId ''s1''\<rparr>]
         \<lparr>currentTime = 0, isPlaying = False\<rparr> [])]
 \<and> \<not> room_exists initial abc
 \<and> usernames (snd (join_room initial ''s1'' abc Undefined 1000)) abc = [Undefined]"
  by (simp add: handler_defs observer_defs)

section \<open>Rooms created on first join\<close>

text \<open>
  C9. A join into a room that is not in the registry creates it with no participants,
  no messages and the snapshot \<open>(0, paused)\<close>: afterwards the room holds exactly what
  the join itself adds to that, the joining participant and, on the fallback path, the
  one system message, with the snapshot still \<open>(0, paused)\<close>; the \<^verbatim>\<open>room_users\<close>
  event of the push path reports the same.
\<close>

theorem first_join_creates_pristine_room:
  "(\<not> room_exists st roomId \<and> truthy roomId \<and> truthy uname \<longrightarrow>
     map_of (rooms (snd (snd (http_join st roomId uname now rnd)))) roomId
       = Some \<lparr>users = [(''user-'' @ toString now @ ''-'' @ rnd,
                         \<lparr>username = uname,
                          ident = UserId (''user-'' @ toString now @ ''-'' @ rnd)\<rparr>)],
               videoState = \<lparr>currentTime = 0, isPlaying = False\<rparr>,
               messages = [\<lparr>msg_id = toString now, user = Str ''System'',
                            msg_text = joinedText uname, timestamp = now\<rparr>]\<rparr>)
 \<and> (\<not> room_exists st roomId \<longrightarrow>
     map_of (rooms (snd (join_room st sid roomId uname now))) roomId
       = Some \<lparr>users = [(sid, \<lparr>username = uname, ident = SocketId sid\<rparr>)],
               videoState = \<lparr>currentTime = 0, isPlaying = False\<rparr>,
               messages = []\<rparr>
   \<and> fst (join_room st sid roomId uname now)
       = [(ToRoom roomId,
           UserJoined \<lparr>msg_id = toString now, user = uname,
                       msg_text = joinedText uname, timestamp = now\<rparr>),
          (ToSocket sid,
           RoomUsers [\<lparr>username = uname, ident = SocketId sid\<rparr>]
             \<lparr>currentTime = 0, isPlaying = False\<rparr> [])])"
  by (simp add: http_join_def join_room_def leaveRoomCleanup_def emptyRoom_def Let_def
      room_exists_def AList.update_conv' split: prod.splits)

theorem first_join_creates_pristine_room_witness:
  "\<not> room_exists initial abc \<and> truthy abc \<and> truthy (Str ''A'')
 \<and> rooms (snd (snd (http_join initial abc (Str ''A'') 1000 ''k3j2h1g0f''))) =
     [(abc, \<lparr>users = [(''user-1000-k3j2h1g0f'',
                       \<lparr>username = Str ''A'', ident = UserId ''user-1000-k3j2h1g0f''\<rparr>)],
             videoState = \<lparr>currentTime = 0, isPlaying = False\<rparr>,
             messages = [\<lparr>msg_id = ''1000'', user = Str ''System'',
                          msg_text = Str ''A joined the room'', timestamp = 1000\<rparr>]\<rparr>)]
 \<and> rooms (snd (join_room initial ''s1'' abc (Str ''A'') 1000)) =
     [(abc, \<lparr>users = [(''s1'', \<lparr>username = Str ''A'', ident = SocketId ''s1''\<rparr>)],
             videoState = \<lparr>currentTime = 0, isPlaying = False\<rparr>,
             messages = []\<rparr>)]"
  using first_join_creates_pristine_room [of initial abc "Str ''A''" 1000 "''k3j2h1g0f''" "''s1''"]
  by (simp add: handler_defs observer_defs)

section \<open>Client: drift correction\<close>

subsection \<open>When a rounded difference exceeds one\<close>

lemma roundHalfEven_lower: "\<lfloor>y\<rfloor> \<le> roundHalfEven y"
  by (simp add: roundHalfEven_def Let_def)

lemma roundHalfEven_upper: "y \<le> of_int n \<Longrightarrow> roundHalfEven y \<le> n"
proof -
  assume le: "y \<le> of_int n"
  then have f: "\<lfloor>y\<rfloor> \<le> n" by (simp add: floor_le_iff)
  show ?thesis
  proof (cases "\<lfloor>y\<rfloor> = n")
    case True
    with le have "y - of_int \<lfloor>y\<rfloor> \<le> 0" by simp
    then show ?thesis using True by (simp add: roundHalfEven_def Let_def)
  next
    case False
    with f have "\<lfloor>y\<rfloor> + 1 \<le> n" by simp
    then show ?thesis by (auto simp: roundHalfEven_def Let_def)
  qed
qed

lemma roundHalfEven_nonneg: "0 \<le> y \<Longrightarrow> 0 \<le> roundHalfEven y"
  using roundHalfEven_lower [of y] by (simp add: order_trans [of 0 "\<lfloor>y\<rfloor>"])

lemma binade:
  assumes "0 < a"
  shows "2 powi \<lfloor>log 2 a\<rfloor> \<le> a" and "a < 2 powi (\<lfloor>log 2 a\<rfloor> + 1)"
proof -
  have "2 powr real_of_int \<lfloor>log 2 a\<rfloor> \<le> a \<and> a < 2 powr real_of_int (\<lfloor>log 2 a\<rfloor> + 1)"
    using floor_log_eq_powr_iff [of a 2 "\<lfloor>log 2 a\<rfloor>"] assms by simp
  then show "2 powi \<lfloor>log 2 a\<rfloor> \<le> a" and "a < 2 powi (\<lfloor>log 2 a\<rfloor> + 1)"
    unfolding powr_real_of_int' [of 2, simplified] by simp_all
qed

lemma pow2_int: "0 \<le> n \<Longrightarrow> (2::real) powi n = of_int (2 ^ nat n)"
  by (simp add: power_int_def)

lemma mag_le_one:
  assumes "0 < a" and "a \<le> 1"
  shows "(2::real) powi ulp_exponent a * of_int (roundHalfEven (a / 2 powi ulp_exponent a)) \<le> 1"
proof -
  define k where "k = ulp_exponent a"
  have "log 2 a \<le> 0" using assms by simp
  then have "\<lfloor>log 2 a\<rfloor> \<le> 0" by (simp add: floor_le_iff)
  then have k: "k \<le> 0" by (simp add: k_def ulp_exponent_def)
  have pos: "(0::real) < 2 powi k" by (simp add: zero_less_power_int)
  have inv: "1 / 2 powi k = (2::real) powi (- k)" by (simp add: power_int_minus_divide)
  have "a / 2 powi k \<le> 1 / 2 powi k" using assms pos by (simp add: divide_right_mono)
  also have "\<dots> = of_int (2 ^ nat (- k))" using k by (simp add: inv pow2_int)
  finally have "roundHalfEven (a / 2 powi k) \<le> 2 ^ nat (- k)" by (rule roundHalfEven_upper)
  then have "of_int (roundHalfEven (a / 2 powi k)) \<le> (of_int (2 ^ nat (- k)) :: real)"
    by (simp only: of_int_le_iff)
  also have "\<dots> = 1 / 2 powi k" using k by (simp add: inv pow2_int)
  finally have r: "real_of_int (roundHalfEven (a / 2 powi k)) \<le> 1 / 2 powi k" .
  have "2 powi k * real_of_int (roundHalfEven (a / 2 powi k)) \<le> 2 powi k * (1 / 2 powi k)"
    using r less_imp_le [OF pos] by (rule mult_left_mono)
  also have "\<dots> = 1" using pos by simp
  finally show ?thesis by (simp add: k_def)
qed

lemma mag_ge_two:
  assumes "2 \<le> a"
  shows "2 \<le> (2::real) powi ulp_exponent a * of_int (roundHalfEven (a / 2 powi ulp_exponent a))"
proof -
  define e where "e = \<lfloor>log 2 a\<rfloor>"
  have a: "0 < a" using assms by simp
  have "1 \<le> log 2 a" using assms by (simp add: le_log_iff)
  then have e: "1 \<le> e" by (simp add: e_def le_floor_iff)
  then have k: "ulp_exponent a = e - 52" by (simp add: ulp_exponent_def e_def)
  have pos: "(0::real) < 2 powi (e - 52)" by (simp add: zero_less_power_int)
  have split: "(2::real) powi e = 2 powi (e - 52) * 2 ^ 52"
    using power_int_add [of "2::real" "e - 52" 52] by simp
  have "2 powi e \<le> a" unfolding e_def using a by (rule binade)
  then have "2 powi (e - 52) * 2 ^ 52 \<le> a" by (simp only: split)
  then have "2 ^ 52 \<le> a / 2 powi (e - 52)"
    using pos by (simp add: pos_le_divide_eq mult.commute)
  then have "(2 ^ 52 :: int) \<le> \<lfloor>a / 2 powi (e - 52)\<rfloor>" by (simp add: le_floor_iff)
  also have "\<dots> \<le> roundHalfEven (a / 2 powi (e - 52))" by (rule roundHalfEven_lower)
  finally have "real_of_int (2 ^ 52) \<le> of_int (roundHalfEven (a / 2 powi (e - 52)))"
    by (simp only: of_int_le_iff)
  then have "2 powi (e - 52) * real_of_int (2 ^ 52)
      \<le> 2 powi (e - 52) * of_int (roundHalfEven (a / 2 powi (e - 52)))"
    using less_imp_le [OF pos] by (rule mult_left_mono)
  moreover have "2 powi (e - 52) * real_of_int (2 ^ 52) = 2 powi e"
    by (simp only: split) simp
  moreover have "(2::real) \<le> 2 powi e"
    using power_int_increasing [of 1 e "2::real"] e by simp
  ultimately show ?thesis by (simp only: k)
qed

lemma mag_between:
  assumes "1 < a" and "a < 2"
  shows "1 < (2::real) powi ulp_exponent a * of_int (roundHalfEven (a / 2 powi ulp_exponent a))
     \<longleftrightarrow> 1 + 2 powi (- 53) < a"
proof -
  have "\<lfloor>log 2 a\<rfloor> = 0"
    using assms floor_log_eq_powr_iff [of a 2 0] by simp
  then have k: "ulp_exponent a = - 52" by (simp add: ulp_exponent_def)
  define y where "y = a * 2 ^ 52"
  have y: "a / 2 powi (- 52) = y" by (simp add: y_def power_int_minus field_simps)
  have lo: "2 ^ 52 < y" and hi: "y < 2 ^ 53" using assms by (simp_all add: y_def)
  have r: "2 ^ 52 < roundHalfEven y \<longleftrightarrow> 2 ^ 52 + 1 / 2 < y"
  proof (cases "\<lfloor>y\<rfloor> = 2 ^ 52")
    case True
    then show ?thesis by (auto simp: roundHalfEven_def Let_def)
  next
    case False
    have "2 ^ 52 \<le> \<lfloor>y\<rfloor>" using lo by (simp add: le_floor_iff)
    with False have f: "2 ^ 52 + 1 \<le> \<lfloor>y\<rfloor>" by linarith
    then have "real_of_int (2 ^ 52 + 1) \<le> of_int \<lfloor>y\<rfloor>" by (simp only: of_int_le_iff)
    then have "real_of_int (2 ^ 52 + 1) \<le> y" using of_int_floor_le [of y] by (rule order_trans)
    then have "2 ^ 52 + 1 \<le> y" by simp
    moreover from f roundHalfEven_lower [of y] have "2 ^ 52 < roundHalfEven y" by linarith
    ultimately show ?thesis by simp
  qed
  have "1 < 2 powi (- 52) * real_of_int (roundHalfEven y) \<longleftrightarrow> real_of_int (2 ^ 52) < of_int (roundHalfEven y)"
    by (simp add: power_int_minus field_simps)
  also have "\<dots> \<longleftrightarrow> 2 ^ 52 < roundHalfEven y"
    by (simp only: of_int_less_iff)
  also have "\<dots> \<longleftrightarrow> 2 ^ 52 + 1 / 2 < y" by (rule r)
  also have "\<dots> \<longleftrightarrow> 1 + 2 powi (- 53) < a"
    by (simp add: y_def power_int_minus field_simps)
  finally show ?thesis unfolding k y .
qed

lemma abs_round_double:
  assumes "x \<noteq> 0"
  shows "\<bar>round_double x\<bar>
     = 2 powi ulp_exponent \<bar>x\<bar> * of_int (roundHalfEven (\<bar>x\<bar> / 2 powi ulp_exponent \<bar>x\<bar>))"
proof -
  have "(0::real) \<le> 2 powi ulp_exponent \<bar>x\<bar>"
    by (simp add: zero_less_power_int less_imp_le)
  moreover have "0 \<le> roundHalfEven (\<bar>x\<bar> / 2 powi ulp_exponent \<bar>x\<bar>)"
    by (rule roundHalfEven_nonneg) (simp add: zero_less_power_int less_imp_le)
  ultimately show ?thesis
    using assms by (simp add: round_double_def abs_mult abs_sgn_eq)
qed

text \<open>
  The rounded difference exceeds 1 exactly when the exact one exceeds \<open>1 + 2\<^sup>-\<^sup>5\<^sup>3\<close>:
  up to there it rounds to 1 or lies below.
\<close>

lemma round_double_exceeds_one: "1 < \<bar>round_double x\<bar> \<longleftrightarrow> 1 + 2 powi (- 53) < \<bar>x\<bar>"
proof (cases "x = 0")
  case True
  then show ?thesis by (simp add: round_double_def zero_less_power_int less_imp_le add_nonneg_pos)
next
  case False
  then have pos: "0 < \<bar>x\<bar>" by simp
  have tiny: "(0::real) < 2 powi (- 53)" by (simp add: zero_less_power_int)
  have small: "(2::real) powi (- 53) < 1" by (simp add: power_int_minus field_simps)
  consider "\<bar>x\<bar> \<le> 1" | "1 < \<bar>x\<bar>" "\<bar>x\<bar> < 2" | "2 \<le> \<bar>x\<bar>" by linarith
  then show ?thesis
  proof cases
    case 1
    with mag_le_one [OF pos] tiny show ?thesis
      unfolding abs_round_double [OF False] by linarith
  next
    case 2
    with mag_between [of "\<bar>x\<bar>"] show ?thesis
      unfolding abs_round_double [OF False] by simp
  next
    case 3
    with mag_ge_two [of "\<bar>x\<bar>"] small show ?thesis
      unfolding abs_round_double [OF False] by linarith
  qed
qed

subsection \<open>The handler's effect\<close>

lemma handleVideoStateUpdate_mounted:
  "videoRef p = Some v \<Longrightarrow>
   handleVideoStateUpdate p ct pl ap =
     p\<lparr>videoRef := Some \<lparr>position = (if 1 + 2 powi (- 53) < \<bar>position v - ct\<bar>
                                       then ct else position v),
                           paused = (if pl then paused v \<and> \<not> ap else True)\<rparr>,
       playing := pl, isExternalUpdate := True\<rparr>"
  by (cases v) (auto simp: handleVideoStateUpdate_def Let_def round_double_exceeds_one)

text \<open>
  The difference of the doubles \<open>1 + 2\<^sup>-\<^sup>5\<^sup>2\<close> and \<open>3 \<sqdot> 2\<^sup>-\<^sup>5\<^sup>4\<close> is \<open>1 + 2\<^sup>-\<^sup>5\<^sup>4\<close>, more than
  one second, and rounds to 1: the position is not corrected.
\<close>

lemma drift_just_above_one_second_stays:
  "map_option position (videoRef (handleVideoStateUpdate
       \<lparr>videoRef = Some \<lparr>position = 1 + 2 powi (- 52), paused = True\<rparr>, playing = False,
        isExternalUpdate = False\<rparr> (3 * 2 powi (- 54)) True True))
     = Some (1 + 2 powi (- 52))"
  by (simp add: handleVideoStateUpdate_mounted power_int_minus)

text \<open>
  C8. With a video element mounted, an incoming playback state moves the local position
  only when it differs from the incoming \<open>currentTime\<close> by more than one second, and
  then to the incoming value. When the two differ by at most one second the position
  stays as it is and the play state alone is reconciled: the component's playing flag
  takes the incoming value, a paused element is started when the incoming state is
  playing (it plays if the browser allows it), a playing element is paused when the
  incoming state is paused. The difference is taken in double precision, so the
  position moves exactly when the exact difference exceeds \<open>1 + 2\<^sup>-\<^sup>5\<^sup>3\<close>.
\<close>

theorem drift_correction_threshold:
  "(videoRef p = Some v \<and> \<bar>position v - ct\<bar> \<le> 1 \<longrightarrow>
      handleVideoStateUpdate p ct pl ap =
        p\<lparr>videoRef := Some (v\<lparr>paused := (if pl then paused v \<and> \<not> ap else True)\<rparr>),
          playing := pl, isExternalUpdate := True\<rparr>)
 \<and> (videoRef p = Some v \<and>
      map_option position (videoRef (handleVideoStateUpdate p ct pl ap)) \<noteq> Some (position v) \<longrightarrow>
      1 < \<bar>position v - ct\<bar> \<and>
      map_option position (videoRef (handleVideoStateUpdate p ct pl ap)) = Some ct)
 \<and> (videoRef p = Some v \<longrightarrow>
      map_option position (videoRef (handleVideoStateUpdate p ct pl ap))
        = Some (if 1 + 2 powi (- 53) < \<bar>position v - ct\<bar> then ct else position v)
    \<and> map_option paused (videoRef (handleVideoStateUpdate p ct pl ap))
        = Some (if pl then paused v \<and> \<not> ap else True)
    \<and> playing (handleVideoStateUpdate p ct pl ap) = pl)"
proof -
  have tiny: "(0::real) < 2 powi (- 53)" by (simp add: zero_less_power_int)
  have "\<bar>position v - ct\<bar> \<le> 1 \<Longrightarrow> \<not> 1 + 2 powi (- 53) < \<bar>position v - ct\<bar>"
    and "1 + 2 powi (- 53) < \<bar>position v - ct\<bar> \<Longrightarrow> 1 < \<bar>position v - ct\<bar>"
    using tiny by linarith+
  then show ?thesis
    by (cases v) (auto simp: handleVideoStateUpdate_mounted)
qed

theorem drift_correction_threshold_witness:
  "handleVideoStateUpdate
       \<lparr>videoRef = Some \<lparr>position = 10, paused = True\<rparr>, playing = False,
        isExternalUpdate = False\<rparr> 11 True True
     = \<lparr>videoRef = Some \<lparr>position = 10, paused = False\<rparr>, playing = True,
        isExternalUpdate = True\<rparr>
 \<and> map_option position (videoRef (handleVideoStateUpdate
       \<lparr>videoRef = Some \<lparr>position = 10, paused = True\<rparr>, playing = False,
        isExternalUpdate = False\<rparr> 42 True True)) = Some 42
 \<and> map_option paused (videoRef (handleVideoStateUpdate
       \<lparr>videoRef = Some \<lparr>position = 10, paused = False\<rparr>, playing = True,
        isExternalUpdate = False\<rparr> 42 False True)) = Some True
 \<and> playing (handleVideoStateUpdate
       \<lparr>videoRef = Some \<lparr>position = 10, paused = False\<rparr>, playing = True,
        isExternalUpdate = False\<rparr> 42 False True) = False"
proof -
  define p :: player where "p = \<lparr>videoRef = Some \<lparr>position = 10, paused = True\<rparr>,
      playing = False, isExternalUpdate = False\<rparr>"
  define q :: player where "q = \<lparr>videoRef = Some \<lparr>position = 10, paused = False\<rparr>,
      playing = True, isExternalUpdate = False\<rparr>"
  have far: "(1::real) + 2 powi (- 53) < \<bar>10 - 42\<bar>" by (simp add: power_int_minus)
  have near: "handleVideoStateUpdate p 11 True True
      = p\<lparr>videoRef := Some (\<lparr>position = 10, paused = True\<rparr>\<lparr>paused := False\<rparr>),
          playing := True, isExternalUpdate := True\<rparr>"
    using drift_correction_threshold [of p "\<lparr>position = 10, paused = True\<rparr>" 11 True True]
    by (simp add: p_def)
  have seek: "map_option position (videoRef (handleVideoStateUpdate p 42 True True)) = Some 42"
    using drift_correction_threshold [of p "\<lparr>position = 10, paused = True\<rparr>" 42 True True] far
    by (simp add: p_def)
  have stop: "map_option paused (videoRef (handleVideoStateUpdate q 42 False True)) = Some True
      \<and> playing (handleVideoStateUpdate q 42 False True) = False"
    using drift_correction_threshold [of q "\<lparr>position = 10, paused = False\<rparr>" 42 False True]
    by (simp add: q_def)
  from near seek stop show ?thesis by (simp add: p_def q_def)
qed

end
